theory Spec2Isabelle
  imports Complex_Main
begin

section \<open>Scalars: numpy float64 values\<close>

text \<open>
  Every number the solver and the section extractor compute with is a numpy
  \<^verbatim>\<open>float64\<close>. A finite value is modelled by the real number it denotes; the
  three special values of IEEE 754 are kept, because the solver neither
  produces nor rejects them on purpose and a claim is about them. Signed zeros
  are not distinguished. The arithmetic on the components of states is exact on
  finite values (their rounding and overflow are not modelled) and follows the
  IEEE rules for the special values: NaN is absorbing, \<open>inf - inf\<close> and \<open>0 * inf\<close>
  are NaN, every comparison with NaN is false. The arithmetic of the time grid
  is rounded, with the rounding defined below.
\<close>

datatype fl = Fin real | PInf | NInf | NaN

instantiation fl :: "{zero, one, uminus, minus, times, inverse, ord, numeral}"
begin

definition zero_fl :: fl where
  "zero_fl = Fin 0"

definition one_fl :: fl where
  "one_fl = Fin 1"

fun uminus_fl :: "fl \<Rightarrow> fl" where
  "uminus_fl (Fin a) = Fin (- a)"
| "uminus_fl PInf = NInf"
| "uminus_fl NInf = PInf"
| "uminus_fl NaN = NaN"

fun plus_fl :: "fl \<Rightarrow> fl \<Rightarrow> fl" where
  "plus_fl (Fin a) (Fin b) = Fin (a + b)"
| "plus_fl NaN _ = NaN"
| "plus_fl _ NaN = NaN"
| "plus_fl PInf NInf = NaN"
| "plus_fl NInf PInf = NaN"
| "plus_fl PInf _ = PInf"
| "plus_fl _ PInf = PInf"
| "plus_fl NInf _ = NInf"
| "plus_fl _ NInf = NInf"

definition minus_fl :: "fl \<Rightarrow> fl \<Rightarrow> fl" where
  "minus_fl (a::fl) b = a + (- b)"

fun times_fl :: "fl \<Rightarrow> fl \<Rightarrow> fl" where
  "times_fl (Fin a) (Fin b) = Fin (a * b)"
| "times_fl NaN _ = NaN"
| "times_fl _ NaN = NaN"
| "times_fl (Fin a) PInf = (if 0 < a then PInf else if a < 0 then NInf else NaN)"
| "times_fl (Fin a) NInf = (if 0 < a then NInf else if a < 0 then PInf else NaN)"
| "times_fl PInf (Fin b) = (if 0 < b then PInf else if b < 0 then NInf else NaN)"
| "times_fl NInf (Fin b) = (if 0 < b then NInf else if b < 0 then PInf else NaN)"
| "times_fl PInf PInf = PInf"
| "times_fl PInf NInf = NInf"
| "times_fl NInf PInf = NInf"
| "times_fl NInf NInf = PInf"

fun divide_fl :: "fl \<Rightarrow> fl \<Rightarrow> fl" where
  "divide_fl (Fin a) (Fin b) =
     (if b = 0 then (if 0 < a then PInf else if a < 0 then NInf else NaN)
      else Fin (a / b))"
| "divide_fl NaN _ = NaN"
| "divide_fl _ NaN = NaN"
| "divide_fl (Fin a) PInf = Fin 0"
| "divide_fl (Fin a) NInf = Fin 0"
| "divide_fl PInf (Fin b) = (if 0 \<le> b then PInf else NInf)"
| "divide_fl NInf (Fin b) = (if 0 \<le> b then NInf else PInf)"
| "divide_fl PInf PInf = NaN"
| "divide_fl PInf NInf = NaN"
| "divide_fl NInf PInf = NaN"
| "divide_fl NInf NInf = NaN"

fun inverse_fl :: "fl \<Rightarrow> fl" where
  "inverse_fl (Fin b) = (if b = 0 then PInf else Fin (1 / b))"
| "inverse_fl PInf = Fin 0"
| "inverse_fl NInf = Fin 0"
| "inverse_fl NaN = NaN"

fun less_fl :: "fl \<Rightarrow> fl \<Rightarrow> bool" where
  "less_fl (Fin a) (Fin b) = (a < b)"
| "less_fl (Fin a) PInf = True"
| "less_fl NInf (Fin b) = True"
| "less_fl NInf PInf = True"
| "less_fl _ _ = False"

fun less_eq_fl :: "fl \<Rightarrow> fl \<Rightarrow> bool" where
  "less_eq_fl (Fin a) (Fin b) = (a \<le> b)"
| "less_eq_fl (Fin a) PInf = True"
| "less_eq_fl NInf (Fin b) = True"
| "less_eq_fl NInf PInf = True"
| "less_eq_fl PInf PInf = True"
| "less_eq_fl NInf NInf = True"
| "less_eq_fl _ _ = False"

instance
proof
  fix a b c :: fl
  show "a + b + c = a + (b + c)"
    by (cases a; cases b; cases c) simp_all
qed

end

text \<open>A value is finite when it is neither an infinity nor NaN.\<close>

fun finite_fl :: "fl \<Rightarrow> bool" where
  "finite_fl (Fin a) = True"
| "finite_fl _ = False"

subsection \<open>Rounding to float64\<close>

text \<open>
  The time grid of a trajectory is where the behaviour of the code depends on
  the rounding of float64 arithmetic, so there every operation is rounded: the
  exact result goes to the nearest float64, ties to the even significand
  (53 bits, the spacing of subnormal values is \<open>2 powi - 1074\<close>), and a rounded
  magnitude of \<open>2 ^ 1024\<close> or more is an infinity. Each operation is rounded once
  (no fused multiply-add, no extended precision).
\<close>

definition round_half_even :: "real \<Rightarrow> int" where
  "round_half_even x =
     (let f = \<lfloor>x\<rfloor>; r = x - of_int f in
      if r < 1 / 2 then f else if 1 / 2 < r then f + 1 else if even f then f else f + 1)"

text \<open>
  The exponent \<open>e\<close> of the spacing \<open>2 powi e\<close> of the float64 values around a
  magnitude \<open>a\<close>: the largest \<open>e\<close> up to 971 with \<open>2 powi (e + 52) \<le> a\<close>, found from
  the top, and \<open>- 1074\<close> below the normal range.
\<close>

fun ulp_search :: "nat \<Rightarrow> real \<Rightarrow> int" where
  "ulp_search 0 a = - 1074"
| "ulp_search (Suc n) a =
     (if 2 powi (int n - 1021) \<le> a then int n - 1073 else ulp_search n a)"

definition ulp_exponent :: "real \<Rightarrow> int" where
  "ulp_exponent x = ulp_search 2045 \<bar>x\<bar>"

definition round_double :: "real \<Rightarrow> fl" where
  "round_double x =
     (let e = ulp_exponent x;
          r = of_int (round_half_even (x / 2 powi e)) * 2 powi e
      in if 2 ^ 1024 \<le> r then PInf else if r \<le> - (2 ^ 1024) then NInf else Fin r)"

text \<open>The rounding of the exact result of an operation on float64 values.\<close>

fun rd :: "fl \<Rightarrow> fl" where
  "rd (Fin x) = round_double x"
| "rd PInf = PInf"
| "rd NInf = NInf"
| "rd NaN = NaN"

text \<open>A real number is a float64 value when rounding leaves it as it is.\<close>

definition is_double :: "real \<Rightarrow> bool" where
  "is_double x = (round_double x = Fin x)"

section \<open>Arrays, the store and errors\<close>

text \<open>
  A one-dimensional \<^verbatim>\<open>np.ndarray\<close> is a list of scalars, a two-dimensional one
  a list of rows. Arrays that the code mutates in place live in a store: a
  reference is an index into the list of live arrays, and a new array is put
  at the end. The exceptions that Python and numpy raise are values.
\<close>

type_synonym array = "fl list"
type_synonym matrix = "fl list list"
type_synonym ref = nat
type_synonym heap = "array list"

datatype error = ValueError | IndexError | ZeroDivisionError

type_synonym snap_func = "fl \<Rightarrow> fl \<Rightarrow> fl \<Rightarrow> fl \<Rightarrow> fl \<Rightarrow> fl"

definition new_array :: "heap \<Rightarrow> array \<Rightarrow> heap \<times> ref" where
  "new_array h a = (h @ [a], length h)"

text \<open>
  The array expressions of numpy build new arrays and leave their operands
  alone: \<^verbatim>\<open>a + b\<close>, \<^verbatim>\<open>a - b\<close>, \<^verbatim>\<open>a * c\<close>, \<^verbatim>\<open>a / c\<close> and \<^verbatim>\<open>c * a\<close> for arrays
  \<^verbatim>\<open>a\<close>, \<^verbatim>\<open>b\<close> of one shape and a scalar \<^verbatim>\<open>c\<close>.
\<close>

definition vadd :: "array \<Rightarrow> array \<Rightarrow> array" where
  "vadd a b = map2 (+) a b"

definition vsub :: "array \<Rightarrow> array \<Rightarrow> array" where
  "vsub a b = map2 (-) a b"

definition vscale :: "array \<Rightarrow> fl \<Rightarrow> array" where
  "vscale a c = map (\<lambda>q. q * c) a"

definition vdiv :: "array \<Rightarrow> fl \<Rightarrow> array" where
  "vdiv a c = map (\<lambda>q. q / c) a"

definition smul :: "fl \<Rightarrow> array \<Rightarrow> array" where
  "smul c a = map (\<lambda>q. c * q) a"

section \<open>Solver\<close>

subsection \<open>State-space reduction\<close>

text \<open>
  \<^verbatim>\<open>Solver._state_derivative(y, t)\<close>: the unpacking \<^verbatim>\<open>x1, x2, x3, x4 = y\<close> raises
  ValueError unless \<^verbatim>\<open>y\<close> has exactly four entries. The snap function is the
  solver's \<^verbatim>\<open>snap_func\<close>, a pure function of five scalars.
\<close>

definition state_derivative :: "snap_func \<Rightarrow> array \<Rightarrow> fl \<Rightarrow> error + array" where
  "state_derivative snap y t =
     (case y of
        [x1, x2, x3, x4] \<Rightarrow> Inr [x2, x3, x4, snap x1 x2 x3 x4 t]
      | _ \<Rightarrow> Inl ValueError)"

subsection \<open>Runge-Kutta step\<close>

text \<open>
  \<^verbatim>\<open>Solver.rk4_step(y, t, dt)\<close> reads the array \<^verbatim>\<open>y\<close>, builds every
  intermediate array with array expressions and returns the array of the last
  expression, a new object. \<^verbatim>\<open>k1 * dt / 2\<close> is \<^verbatim>\<open>(k1 * dt) / 2\<close>.
\<close>

definition rk4_step :: "snap_func \<Rightarrow> heap \<Rightarrow> ref \<Rightarrow> fl \<Rightarrow> fl \<Rightarrow> error + heap \<times> ref" where
  "rk4_step snap h y t dt =
     (case state_derivative snap (h ! y) t of
        Inl e \<Rightarrow> Inl e
      | Inr k1 \<Rightarrow>
     (case state_derivative snap (vadd (h ! y) (vdiv (vscale k1 dt) 2)) (t + dt / 2) of
        Inl e \<Rightarrow> Inl e
      | Inr k2 \<Rightarrow>
     (case state_derivative snap (vadd (h ! y) (vdiv (vscale k2 dt) 2)) (t + dt / 2) of
        Inl e \<Rightarrow> Inl e
      | Inr k3 \<Rightarrow>
     (case state_derivative snap (vadd (h ! y) (vscale k3 dt)) (t + dt) of
        Inl e \<Rightarrow> Inl e
      | Inr k4 \<Rightarrow>
          Inr (new_array h
                (vadd (h ! y)
                   (smul (dt / 6) (vadd (vadd (vadd k1 (smul 2 k2)) (smul 2 k3)) k4))))))))"

subsection \<open>Forest-Ruth step\<close>

text \<open>
  \<^verbatim>\<open>theta = 1.0 / (2.0 - 2.0**(1.0/3.0))\<close>, a finite constant.
\<close>

definition theta :: fl where
  "theta = Fin (1 / (2 - 2 powr (1 / 3)))"

text \<open>
  \<^verbatim>\<open>y[0:3] += c * y[1:4]\<close> on the value of the array: the right-hand side is
  computed into a temporary first, so every entry is updated from the old
  entries. numpy raises ValueError when the two slices do not have one length
  and the right one is not a single entry that broadcasts (arrays of three
  entries or of one); entries from index 3 on are left alone.
\<close>

definition slice_iadd :: "fl \<Rightarrow> array \<Rightarrow> error + array" where
  "slice_iadd c a =
     (let lhs = take 3 a; rhs = smul c (take 3 (drop 1 a)) in
      if length rhs = length lhs then Inr (vadd lhs rhs @ drop 3 a)
      else if length rhs = 1 then Inr (map (\<lambda>p. p + hd rhs) lhs @ drop 3 a)
      else Inl ValueError)"

text \<open>
  \<^verbatim>\<open>Solver._forest_ruth_substep(y, t, dt_pos, dt_vel)\<close> writes into the array it
  is given and returns that same reference. \<^verbatim>\<open>y[3]\<close> raises IndexError on an
  array of fewer than four entries.
\<close>

definition forest_ruth_substep ::
    "snap_func \<Rightarrow> heap \<Rightarrow> ref \<Rightarrow> fl \<Rightarrow> fl \<Rightarrow> fl \<Rightarrow> error + heap \<times> ref" where
  "forest_ruth_substep snap h y t dt_pos dt_vel =
     (case slice_iadd dt_pos (h ! y) of
        Inl e \<Rightarrow> Inl e
      | Inr a \<Rightarrow>
          (let h1 = h[y := a]; b = h1 ! y in
           if length b \<le> 3 then Inl IndexError
           else Inr (h1[y := b[3 := b ! 3 + dt_vel * snap (b ! 0) (b ! 1) (b ! 2) (b ! 3) t]], y)))"

text \<open>
  \<^verbatim>\<open>Solver.symplectic_step(y, t, dt)\<close>: three sub-steps on the array \<^verbatim>\<open>y\<close>, each
  rebinding \<^verbatim>\<open>y\<close> to the reference the sub-step returns, then a last
  \<^verbatim>\<open>y[0:3] += (theta * dt / 2.0) * y[1:4]\<close>.
\<close>

definition symplectic_step :: "snap_func \<Rightarrow> heap \<Rightarrow> ref \<Rightarrow> fl \<Rightarrow> fl \<Rightarrow> error + heap \<times> ref" where
  "symplectic_step snap h y t dt =
     (case forest_ruth_substep snap h y t (theta * dt / 2) (theta * dt) of
        Inl e \<Rightarrow> Inl e
      | Inr (h1, y1) \<Rightarrow>
     (case forest_ruth_substep snap h1 y1 (t + theta * dt)
             ((1 - theta) * dt / 2) ((1 - 2 * theta) * dt) of
        Inl e \<Rightarrow> Inl e
      | Inr (h2, y2) \<Rightarrow>
     (case forest_ruth_substep snap h2 y2 (t + (1 - theta) * dt)
             ((1 - theta) * dt / 2) (theta * dt) of
        Inl e \<Rightarrow> Inl e
      | Inr (h3, y3) \<Rightarrow>
     (case slice_iadd (theta * dt / 2) (h3 ! y3) of
        Inl e \<Rightarrow> Inl e
      | Inr a \<Rightarrow> Inr (h3[y3 := a], y3)))))"

subsection \<open>Trajectory generation\<close>

text \<open>
  \<^verbatim>\<open>np.arange(start, stop, step)\<close> for Python floats \<^verbatim>\<open>start\<close>, \<^verbatim>\<open>stop\<close>,
  \<^verbatim>\<open>step\<close> (finite float64 values). numpy first computes the length: the
  Python difference \<^verbatim>\<open>stop - start\<close>, the Python quotient of that by \<^verbatim>\<open>step\<close>
  (ZeroDivisionError on a zero step), and the ceiling of the quotient, with
  ValueError when the quotient is an infinity or its ceiling does not fit a
  signed 64-bit integer. A quotient that underflowed to zero counts as one
  value when it is positive and as none when it is negative. An allocation
  that fails for want of memory is outside the model.
\<close>

definition calc_length :: "real \<Rightarrow> real \<Rightarrow> real \<Rightarrow> error + int" where
  "calc_length start stop step =
     (let next = round_double (stop - start) in
      if step = 0 then Inl ZeroDivisionError
      else (case rd (next / Fin step) of
              Fin q \<Rightarrow>
                if \<lceil>q\<rceil> < - (2 ^ 63) \<or> 2 ^ 63 \<le> \<lceil>q\<rceil> then Inl ValueError
                else if q = 0 \<and> next \<noteq> Fin 0
                  then Inr (if 0 < next / Fin step then 1 else 0)
                else Inr \<lceil>q\<rceil>
            | _ \<Rightarrow> Inl ValueError))"

text \<open>
  Then the values: the first is \<^verbatim>\<open>start\<close>, the second the float64 sum
  \<^verbatim>\<open>start + step\<close>, and value \<open>i\<close> from the third on is \<^verbatim>\<open>start + i * delta\<close> in
  float64 arithmetic, where \<^verbatim>\<open>delta\<close> is the second value minus the first.
  There are none when the length is not positive, and the array is refused
  with ValueError when its 8-byte values would take more than \<open>2 ^ 63 - 1\<close>
  bytes.
\<close>

definition arange :: "real \<Rightarrow> real \<Rightarrow> real \<Rightarrow> error + fl list" where
  "arange start stop step =
     (case calc_length start stop step of
        Inl e \<Rightarrow> Inl e
      | Inr n \<Rightarrow>
          if 2 ^ 60 \<le> n then Inl ValueError
          else
            (let next = round_double (start + step);
                 delta = rd (next - Fin start)
             in Inr (map (\<lambda>i. if i = 0 then Fin start
                              else if i = 1 then next
                              else rd (Fin start + rd (round_double (real i) * delta)))
                       [0..<nat n])))"

text \<open>
  \<^verbatim>\<open>states[i] = y\<close> copies the entries of \<^verbatim>\<open>y\<close> into row \<^verbatim>\<open>i\<close> of the
  \<open>n \<times> 4\<close> array \<^verbatim>\<open>states\<close>: the row holds values, not the array object. An
  array of one entry broadcasts over the row, any other length than four
  raises ValueError.
\<close>

definition row_of :: "array \<Rightarrow> error + array" where
  "row_of y =
     (if length y = 4 then Inr y
      else if length y = 1 then Inr (replicate 4 (hd y))
      else Inl ValueError)"

text \<open>
  The loop \<^verbatim>\<open>for i in range(n_steps)\<close> of \<^verbatim>\<open>Solver.solve\<close>, over the time values
  that are left, \<^verbatim>\<open>i\<close> counting the rows written so far.
\<close>

fun solve_loop ::
    "(heap \<Rightarrow> ref \<Rightarrow> fl \<Rightarrow> fl \<Rightarrow> error + heap \<times> ref) \<Rightarrow> fl \<Rightarrow> fl list \<Rightarrow> nat \<Rightarrow>
     heap \<Rightarrow> ref \<Rightarrow> matrix \<Rightarrow> error + heap \<times> matrix" where
  "solve_loop step_func dt [] i h y states = Inr (h, states)"
| "solve_loop step_func dt (t # ts) i h y states =
     (case row_of (h ! y) of
        Inl e \<Rightarrow> Inl e
      | Inr row \<Rightarrow>
          (case step_func h y t dt of
             Inl e \<Rightarrow> Inl e
           | Inr (h', y') \<Rightarrow> solve_loop step_func dt ts (Suc i) h' y' (states[i := row])))"

text \<open>
  \<^verbatim>\<open>Solver.solve(y0, t_span, dt, method)\<close>. The caller's initial state is the
  array at \<^verbatim>\<open>y0\<close>; \<^verbatim>\<open>np.array(y0, dtype=float)\<close> copies it into a new array.
  The result is the pair \<^verbatim>\<open>(t_values, states)\<close>, given here with the store the
  run leaves behind. The snap function is taken to return a value; an allocation
  that fails for want of memory is outside the model.
\<close>

definition solve ::
    "snap_func \<Rightarrow> heap \<Rightarrow> ref \<Rightarrow> real \<times> real \<Rightarrow> real \<Rightarrow> string \<Rightarrow>
     error + heap \<times> fl list \<times> matrix" where
  "solve snap h y0 t_span dt method =
     (case t_span of (t_start, t_end) \<Rightarrow>
      (case arange t_start t_end dt of
         Inl e \<Rightarrow> Inl e
       | Inr t_values \<Rightarrow>
           (let n_steps = length t_values;
                states = replicate n_steps (replicate 4 0);
                (h1, y) = new_array h (h ! y0);
                step_func = (if method = ''rk4'' then rk4_step snap else symplectic_step snap)
            in case solve_loop step_func (Fin dt) t_values 0 h1 y states of
                 Inl e \<Rightarrow> Inl e
               | Inr (h', states') \<Rightarrow> Inr (h', t_values, states'))))"

section \<open>Section extraction\<close>

text \<open>
  Indexing a one-dimensional array with a Python integer: a negative index
  counts from the end, an index out of range raises IndexError.
\<close>

definition item :: "array \<Rightarrow> int \<Rightarrow> error + fl" where
  "item a k =
     (if 0 \<le> k \<and> k < int (length a) then Inr (a ! nat k)
      else if k < 0 \<and> - int (length a) \<le> k then Inr (a ! nat (int (length a) + k))
      else Inl IndexError)"

text \<open>
  The loop \<^verbatim>\<open>for i in range(len(states) - 1)\<close> of \<^verbatim>\<open>Visualizer.poincare_section\<close>
  with the list \<^verbatim>\<open>ps_points\<close> it appends to. \<^verbatim>\<open>direction\<close> is a Python integer.
\<close>

function poincare_loop ::
    "matrix \<Rightarrow> int \<Rightarrow> fl \<Rightarrow> int \<Rightarrow> nat \<Rightarrow> array list \<Rightarrow> error + array list" where
  "poincare_loop states plane_idx crossing_val direction i ps_points =
     (if i + 1 < length states then
        (case item (states ! i) plane_idx of
           Inl e \<Rightarrow> Inl e
         | Inr p1 \<Rightarrow>
        (case item (states ! (i + 1)) plane_idx of
           Inl e \<Rightarrow> Inl e
         | Inr p2 \<Rightarrow>
             if (p1 - crossing_val) * (p2 - crossing_val) < 0 then
               if 0 < Fin (real_of_int direction) * (p2 - p1) then
                 poincare_loop states plane_idx crossing_val direction (i + 1)
                   (ps_points @
                    [vadd (states ! i)
                       (smul ((crossing_val - p1) / (p2 - p1))
                          (vsub (states ! (i + 1)) (states ! i)))])
               else poincare_loop states plane_idx crossing_val direction (i + 1) ps_points
             else poincare_loop states plane_idx crossing_val direction (i + 1) ps_points))
      else Inr ps_points)"
  by pat_completeness auto
termination
  by (relation "measure (\<lambda>(states, plane_idx, crossing_val, direction, i, ps_points).
        length states - i)") auto

declare poincare_loop.simps [simp del]

definition poincare_section :: "matrix \<Rightarrow> int \<Rightarrow> fl \<Rightarrow> int \<Rightarrow> error + array list" where
  "poincare_section states plane_idx crossing_val direction =
     poincare_loop states plane_idx crossing_val direction 0 []"

section \<open>Snap functions used as examples\<close>

text \<open>
  \<^verbatim>\<open>linear_snap\<close> of \<^verbatim>\<open>tests/test_core.py\<close> returns \<^verbatim>\<open>-x\<close>. \<^verbatim>\<open>pole_snap\<close> is
  \<^verbatim>\<open>lambda x, v, a, j, t: 1.0 / x\<close>, whose value at the numpy scalar \<^verbatim>\<open>0.0\<close>
  is \<^verbatim>\<open>inf\<close>.
\<close>

definition linear_snap :: snap_func where
  "linear_snap x v a j t = - x"

definition pole_snap :: snap_func where
  "pole_snap x v a j t = 1 / x"

section \<open>The formulas of the specification\<close>

text \<open>
  What follows is written from the words of the specification, on values and
  without a store, to be compared with the functions above. The vector field
  of a state \<open>[x, v, a, j]\<close> at time \<open>t\<close> is \<open>[v, a, j, snap x v a j t]\<close>.
\<close>

definition vector_field :: "snap_func \<Rightarrow> array \<Rightarrow> fl \<Rightarrow> array" where
  "vector_field snap y t = [y ! 1, y ! 2, y ! 3, snap (y ! 0) (y ! 1) (y ! 2) (y ! 3) t]"

text \<open>The classical Runge-Kutta combination \<open>y + (dt/6) (k1 + 2 k2 + 2 k3 + k4)\<close>.\<close>

definition rk4_formula :: "snap_func \<Rightarrow> array \<Rightarrow> fl \<Rightarrow> fl \<Rightarrow> array" where
  "rk4_formula snap y t dt =
     (let k1 = vector_field snap y t;
          k2 = vector_field snap (vadd y (vdiv (vscale k1 dt) 2)) (t + dt / 2);
          k3 = vector_field snap (vadd y (vdiv (vscale k2 dt) 2)) (t + dt / 2);
          k4 = vector_field snap (vadd y (vscale k3 dt)) (t + dt)
      in vadd y (smul (dt / 6) (vadd (vadd (vadd k1 (smul 2 k2)) (smul 2 k3)) k4)))"

text \<open>
  A position drift moves the first three components by \<open>c\<close> times the last
  three; a kick moves the fourth by \<open>d\<close> times the snap.
\<close>

fun drift :: "fl \<Rightarrow> array \<Rightarrow> array" where
  "drift c [x, v, a, j] = [x + c * v, v + c * a, a + c * j, j]"
| "drift c y = y"

fun kick :: "snap_func \<Rightarrow> fl \<Rightarrow> fl \<Rightarrow> array \<Rightarrow> array" where
  "kick snap d t [x, v, a, j] = [x, v, a, j + d * snap x v a j t]"
| "kick snap d t y = y"

text \<open>Three drift-then-kick sub-steps and the closing half drift.\<close>

definition symplectic_formula :: "snap_func \<Rightarrow> array \<Rightarrow> fl \<Rightarrow> fl \<Rightarrow> array" where
  "symplectic_formula snap y t dt =
     (let y1 = kick snap (theta * dt) t (drift (theta * dt / 2) y);
          y2 = kick snap ((1 - 2 * theta) * dt) (t + theta * dt) (drift ((1 - theta) * dt / 2) y1);
          y3 = kick snap (theta * dt) (t + (1 - theta) * dt) (drift ((1 - theta) * dt / 2) y2)
      in drift (theta * dt / 2) y3)"

text \<open>One step of the selected method.\<close>

definition step_formula :: "snap_func \<Rightarrow> string \<Rightarrow> array \<Rightarrow> fl \<Rightarrow> fl \<Rightarrow> array" where
  "step_formula snap method y t dt =
     (if method = ''rk4'' then rk4_formula snap y t dt else symplectic_formula snap y t dt)"

text \<open>
  The states a run records over a list of time values: the current state at
  each time value, before the step from it is taken.
\<close>

fun recorded :: "(array \<Rightarrow> fl \<Rightarrow> fl \<Rightarrow> array) \<Rightarrow> fl \<Rightarrow> array \<Rightarrow> fl list \<Rightarrow> matrix" where
  "recorded f dt y [] = []"
| "recorded f dt y (t # ts) = y # recorded f dt (f y t dt) ts"

text \<open>
  Section extraction in the words of the specification: the hyperplane has a
  coordinate index, a threshold and a crossing direction, which the code takes
  as the integer \<open>1\<close> or \<open>-1\<close>. A pair is kept when the sign of
  \<open>s2[idx] - s1[idx]\<close> is the one asked for, and its section point is
  \<open>s1 + t (s2 - s1)\<close> with \<open>t = (threshold - s1[idx]) / (s2[idx] - s1[idx])\<close>.
\<close>

datatype crossing_direction = Increasing | Decreasing

fun direction_code :: "crossing_direction \<Rightarrow> int" where
  "direction_code Increasing = 1"
| "direction_code Decreasing = - 1"

fun in_direction :: "crossing_direction \<Rightarrow> nat \<Rightarrow> array \<Rightarrow> array \<Rightarrow> bool" where
  "in_direction Increasing idx s1 s2 = (0 < s2 ! idx - s1 ! idx)"
| "in_direction Decreasing idx s1 s2 = (s2 ! idx - s1 ! idx < 0)"

definition section_point :: "nat \<Rightarrow> fl \<Rightarrow> array \<Rightarrow> array \<Rightarrow> array" where
  "section_point idx thr s1 s2 =
     vadd s1 (smul ((thr - s1 ! idx) / (s2 ! idx - s1 ! idx)) (vsub s2 s1))"

text \<open>
  The test of the loop body on the components it reads, and the component a
  Python index in \<open>-4 .. 3\<close> selects in a row of four.
\<close>

definition crosses :: "nat \<Rightarrow> fl \<Rightarrow> int \<Rightarrow> array \<Rightarrow> array \<Rightarrow> bool" where
  "crosses idx thr d s1 s2 =
     ((s1 ! idx - thr) * (s2 ! idx - thr) < 0 \<and> 0 < Fin (real_of_int d) * (s2 ! idx - s1 ! idx))"

definition component :: "int \<Rightarrow> nat" where
  "component k = nat (if k < 0 then k + 4 else k)"

section \<open>Facts about the scalars\<close>

lemma numeral_fl: "(numeral n :: fl) = Fin (numeral n)"
proof (induction n)
  case One
  show ?case by (simp add: one_fl_def)
next
  case (Bit0 n)
  then show ?case by (simp only: numeral.simps plus_fl.simps)
next
  case (Bit1 n)
  then show ?case by (simp only: numeral.simps plus_fl.simps one_fl_def)
qed

lemmas fl_consts = zero_fl_def one_fl_def numeral_fl minus_fl_def


section \<open>Facts about arrays and single steps\<close>

lemma length4E:
  assumes "length (xs :: 'a list) = 4"
  obtains x v a j where "xs = [x, v, a, j]"
proof -
  from assms obtain x r1 where 1: "xs = x # r1" "length r1 = 3"
    by (cases xs) auto
  then obtain v r2 where 2: "r1 = v # r2" "length r2 = 2"
    by (cases r1) auto
  then obtain a r3 where 3: "r2 = a # r3" "length r3 = 1"
    by (cases r2) auto
  then obtain j where "r3 = [j]"
    by (cases r3) auto
  with 1 2 3 show thesis by (intro that) simp
qed

lemma state_derivative_field:
  "length y = 4 \<Longrightarrow> state_derivative snap y t = Inr (vector_field snap y t)"
  by (erule length4E) (simp add: state_derivative_def vector_field_def)

lemma length_vector_field: "length (vector_field snap y t) = 4"
  by (simp add: vector_field_def)

lemma length_vadd: "length (vadd a b) = min (length a) (length b)"
  by (simp add: vadd_def)

lemma length_vsub: "length (vsub a b) = min (length a) (length b)"
  by (simp add: vsub_def)

lemma length_vscale: "length (vscale a c) = length a"
  by (simp add: vscale_def)

lemma length_vdiv: "length (vdiv a c) = length a"
  by (simp add: vdiv_def)

lemma length_smul: "length (smul c a) = length a"
  by (simp add: smul_def)

lemmas length_vec = length_vector_field length_vadd length_vsub length_vscale length_vdiv
  length_smul

lemma rk4_step_value:
  assumes "length (h ! y) = 4"
  shows "rk4_step snap h y t dt = Inr (h @ [rk4_formula snap (h ! y) t dt], length h)"
  using assms
  by (simp add: rk4_step_def rk4_formula_def Let_def state_derivative_field length_vec
      new_array_def)

lemma length_rk4_formula: "length y = 4 \<Longrightarrow> length (rk4_formula snap y t dt) = 4"
  by (simp add: rk4_formula_def Let_def length_vec)

lemma slice_iadd_drift: "length a = 4 \<Longrightarrow> slice_iadd c a = Inr (drift c a)"
  by (erule length4E) (simp add: slice_iadd_def vadd_def smul_def Let_def)

lemma length_drift: "length (drift c a) = length a"
  by (cases "(c, a)" rule: drift.cases) simp_all

lemma length_kick: "length (kick snap d t a) = length a"
  by (cases "(snap, d, t, a)" rule: kick.cases) simp_all

lemma forest_ruth_substep_value:
  assumes "y < length h" "length (h ! y) = 4"
  shows "forest_ruth_substep snap h y t c d = Inr (h[y := kick snap d t (drift c (h ! y))], y)"
proof -
  from assms(2) obtain x v a j where "h ! y = [x, v, a, j]" by (rule length4E)
  with assms(1) show ?thesis
    by (simp add: forest_ruth_substep_def slice_iadd_def vadd_def smul_def Let_def)
qed

lemma symplectic_step_value:
  assumes "y < length h" "length (h ! y) = 4"
  shows "symplectic_step snap h y t dt = Inr (h[y := symplectic_formula snap (h ! y) t dt], y)"
  using assms
  by (simp add: symplectic_step_def symplectic_formula_def forest_ruth_substep_value
      slice_iadd_drift length_drift length_kick Let_def)

lemma length_symplectic_formula: "length (symplectic_formula snap y t dt) = length y"
  by (simp add: symplectic_formula_def length_drift length_kick Let_def)

section \<open>State-space reduction: the derivative of a state\<close>

text \<open>
  C1. For every state \<open>[x, v, a, j]\<close> and time \<open>t\<close> the reduction returns, without
  raising, the four-entry array \<open>[v, a, j, snap x v a j t]\<close>: the last three
  entries of the state copied, then the value of the snap function.
\<close>

theorem state_derivative_reduction:
  "state_derivative snap [x, v, a, j] t = Inr [v, a, j, snap x v a j t]"
  by (simp add: state_derivative_def)

theorem state_derivative_reduction_witness:
  "state_derivative linear_snap [Fin 1, Fin (1 / 2), Fin (1 / 5), Fin (1 / 10)] 0 =
     Inr [Fin (1 / 2), Fin (1 / 5), Fin (1 / 10), Fin (- 1)]"
  using state_derivative_reduction [of linear_snap "Fin 1" "Fin (1 / 2)" "Fin (1 / 5)"
      "Fin (1 / 10)" 0]
  by (simp add: linear_snap_def)

section \<open>The Runge-Kutta step\<close>

text \<open>
  C2. For every state \<open>y = [x, v, a, j]\<close>, time \<open>t\<close> and step size \<open>dt\<close> the RK4
  step returns, without raising and in a new array, the value
  \<open>y + (dt/6) (k1 + 2 k2 + 2 k3 + k4)\<close>, where \<open>k1\<close> is the vector field at \<open>(y, t)\<close>,
  \<open>k2\<close> at \<open>(y + k1 dt/2, t + dt/2)\<close>, \<open>k3\<close> at \<open>(y + k2 dt/2, t + dt/2)\<close> and \<open>k4\<close> at
  \<open>(y + k3 dt, t + dt)\<close>, the vector field of a state being
  \<open>[v, a, j, snap x v a j t]\<close>.
\<close>

theorem rk4_step_formula:
  assumes "h ! y = [x, v, a, j]"
  shows "rk4_step snap h y t dt = Inr (h @ [rk4_formula snap [x, v, a, j] t dt], length h)
    \<and> rk4_formula snap [x, v, a, j] t dt =
        (let k1 = vector_field snap [x, v, a, j] t;
             k2 = vector_field snap (vadd [x, v, a, j] (vdiv (vscale k1 dt) 2)) (t + dt / 2);
             k3 = vector_field snap (vadd [x, v, a, j] (vdiv (vscale k2 dt) 2)) (t + dt / 2);
             k4 = vector_field snap (vadd [x, v, a, j] (vscale k3 dt)) (t + dt)
         in vadd [x, v, a, j] (smul (dt / 6) (vadd (vadd (vadd k1 (smul 2 k2)) (smul 2 k3)) k4)))
    \<and> vector_field snap [p, q, r, s] t' = [q, r, s, snap p q r s t']"
proof -
  have "length (h ! y) = 4" using assms by simp
  then have "rk4_step snap h y t dt = Inr (h @ [rk4_formula snap (h ! y) t dt], length h)"
    by (rule rk4_step_value)
  moreover have "vector_field snap [p, q, r, s] t' = [q, r, s, snap p q r s t']"
    by (simp add: vector_field_def)
  ultimately show ?thesis
    using assms by (simp add: rk4_formula_def)
qed

text \<open>
  The step of \<^verbatim>\<open>test_rk4_progression\<close>: from \<open>[1, 0, 0, 0]\<close> with the snap \<open>-x\<close> and
  \<open>dt = 1/100\<close> the new position is below 1.
\<close>

lemma rk4_test_value:
  "rk4_formula linear_snap [Fin 1, Fin 0, Fin 0, Fin 0] (Fin 0) (Fin (1 / 100))
     = [Fin (1 - 1 / 2400000000), Fin (- 1 / 6000000), Fin (- 1 / 20000), Fin (- 1 / 100)]"
  by (simp add: rk4_formula_def vector_field_def linear_snap_def vadd_def vscale_def vdiv_def
      smul_def fl_consts Let_def)

theorem rk4_step_formula_witness:
  "rk4_step linear_snap [[Fin 1, Fin 0, Fin 0, Fin 0]] 0 (Fin 0) (Fin (1 / 100)) =
     Inr ([[Fin 1, Fin 0, Fin 0, Fin 0],
           [Fin (1 - 1 / 2400000000), Fin (- 1 / 6000000), Fin (- 1 / 20000), Fin (- 1 / 100)]],
          1)"
  using rk4_step_formula [of "[[Fin 1, Fin 0, Fin 0, Fin 0]]" 0 "Fin 1" "Fin 0" "Fin 0" "Fin 0"
      linear_snap "Fin 0" "Fin (1 / 100)"]
  by (simp add: rk4_test_value)

section \<open>The Forest-Ruth step\<close>

text \<open>
  C3. For every state \<open>y = [x, v, a, j]\<close>, time \<open>t\<close> and step size \<open>dt\<close> the
  symplectic step computes, with \<open>theta = 1 / (2 - 2 powr (1/3))\<close>, three
  sub-steps, each a drift of the first three components by \<open>c\<close> times the last
  three followed by a kick of the fourth by \<open>d\<close> times the snap of the drifted
  state, with \<open>(c, d)\<close> equal to \<open>(theta dt / 2, theta dt)\<close> at time \<open>t\<close>, then
  \<open>((1 - theta) dt / 2, (1 - 2 theta) dt)\<close> at time \<open>t + theta dt\<close>, then
  \<open>((1 - theta) dt / 2, theta dt)\<close> at time \<open>t + (1 - theta) dt\<close>, and a last drift by
  \<open>theta dt / 2\<close>. The result is written into the array that was passed.
\<close>

theorem symplectic_step_substeps:
  assumes "y < length h" and "h ! y = [x, v, a, j]"
  shows "symplectic_step snap h y t dt =
      Inr (h[y := drift (theta * dt / 2)
                   (kick snap (theta * dt) (t + (1 - theta) * dt)
                     (drift ((1 - theta) * dt / 2)
                       (kick snap ((1 - 2 * theta) * dt) (t + theta * dt)
                         (drift ((1 - theta) * dt / 2)
                           (kick snap (theta * dt) t
                             (drift (theta * dt / 2) [x, v, a, j]))))))], y)
    \<and> theta = Fin (1 / (2 - 2 powr (1 / 3)))
    \<and> drift c [p, q, r, s] = [p + c * q, q + c * r, r + c * s, s]
    \<and> kick snap d t' [p, q, r, s] = [p, q, r, s + d * snap p q r s t']"
proof -
  have "length (h ! y) = 4" using assms(2) by simp
  with assms(1)
  have "symplectic_step snap h y t dt = Inr (h[y := symplectic_formula snap (h ! y) t dt], y)"
    by (rule symplectic_step_value)
  then show ?thesis
    using assms(2) by (simp add: symplectic_formula_def Let_def theta_def)
qed

theorem symplectic_step_substeps_witness:
  "symplectic_step linear_snap [[Fin 1, Fin 0, Fin 0, Fin 0]] 0 (Fin 0) (Fin 1) =
      Inr ([[Fin 1, Fin 0, Fin 0, Fin 0]]
           [0 := drift (theta * Fin 1 / 2)
                   (kick linear_snap (theta * Fin 1) (Fin 0 + (1 - theta) * Fin 1)
                     (drift ((1 - theta) * Fin 1 / 2)
                       (kick linear_snap ((1 - 2 * theta) * Fin 1) (Fin 0 + theta * Fin 1)
                         (drift ((1 - theta) * Fin 1 / 2)
                           (kick linear_snap (theta * Fin 1) (Fin 0)
                             (drift (theta * Fin 1 / 2) [Fin 1, Fin 0, Fin 0, Fin 0]))))))], 0)"
  using symplectic_step_substeps [of 0 "[[Fin 1, Fin 0, Fin 0, Fin 0]]" "Fin 1" "Fin 0" "Fin 0"
      "Fin 0" linear_snap "Fin 0" "Fin 1"]
  by simp

section \<open>Facts about rounding\<close>

lemma ulp_search_range: "- 1074 \<le> ulp_search n a"
  by (induction n) auto

lemma ulp_search_below: "ulp_search n a = - 1074 \<or> 2 powi (ulp_search n a + 52) \<le> a"
proof (induction n)
  case 0
  show ?case by simp
next
  case (Suc n)
  have "int n - 1073 + 52 = int n - 1021" by simp
  with Suc show ?case by auto
qed

lemma round_half_even_int: "round_half_even (of_int z) = z"
  by (simp add: round_half_even_def)

lemma round_double_dyadic:
  assumes "\<bar>m\<bar> < 2 ^ 53" and "k \<le> 1074"
  shows "round_double (of_int m / 2 ^ k) = Fin (of_int m / 2 ^ k)"
proof -
  let ?x = "of_int m / 2 ^ k :: real"
  let ?e = "ulp_exponent ?x"
  have ax: "\<bar>?x\<bar> < 2 powi (53 - int k)"
  proof -
    have "\<bar>?x\<bar> = \<bar>of_int m\<bar> / 2 ^ k" by simp
    also have "\<dots> < 2 ^ 53 / 2 ^ k"
    proof -
      have "\<bar>of_int m :: real\<bar> < 2 ^ 53"
        using assms(1) by (metis of_int_abs of_int_less_numeral_power_cancel_iff)
      then show ?thesis by (simp add: divide_strict_right_mono)
    qed
    also have "\<dots> = 2 powi (53 - int k)"
      by (simp add: power_int_diff)
    finally show ?thesis .
  qed
  have e: "?e \<le> - int k"
  proof -
    from ulp_search_below [of 2045 "\<bar>?x\<bar>"]
    consider "?e = - 1074" | "2 powi (?e + 52) \<le> \<bar>?x\<bar>"
      unfolding ulp_exponent_def by blast
    then show ?thesis
    proof cases
      case 1
      then show ?thesis using assms(2) by simp
    next
      case 2
      with ax have "(2::real) powi (?e + 52) < 2 powi (53 - int k)" by simp
      have "?e + 52 < 53 - int k"
      proof (rule ccontr)
        assume "\<not> ?e + 52 < 53 - int k"
        then have "53 - int k \<le> ?e + 52" by simp
        then have "(2::real) powi (53 - int k) \<le> 2 powi (?e + 52)"
          by (rule power_int_increasing) simp
        with \<open>(2::real) powi (?e + 52) < 2 powi (53 - int k)\<close> show False by simp
      qed
      then show ?thesis by simp
    qed
  qed
  define n where "n = nat (- int k - ?e)"
  have n: "int n = - int k - ?e" using e by (simp add: n_def)
  have p: "(2::real) powi ?e * 2 ^ n = 1 / 2 ^ k"
  proof -
    have "(2::real) powi ?e * 2 ^ n = 2 powi ?e * 2 powi int n" by simp
    also have "\<dots> = 2 powi (?e + int n)" by (simp add: power_int_add)
    also have "\<dots> = 2 powi (- int k)" using n by simp
    also have "\<dots> = 1 / 2 ^ k" by (simp add: power_int_minus field_simps)
    finally show ?thesis .
  qed
  have pos: "(2::real) powi ?e > 0" by simp
  have q: "?x / 2 powi ?e = of_int (m * 2 ^ n)"
  proof -
    have "?x = of_int m * (2 powi ?e * 2 ^ n)" using p by simp
    then have "?x / 2 powi ?e = of_int m * 2 ^ n" using pos by (simp add: field_simps)
    then show ?thesis by simp
  qed
  have r: "of_int (round_half_even (?x / 2 powi ?e)) * 2 powi ?e = ?x"
  proof -
    have "of_int (round_half_even (?x / 2 powi ?e)) * 2 powi ?e
        = (of_int (m * 2 ^ n) :: real) * 2 powi ?e"
      by (simp only: q round_half_even_int)
    also have "\<dots> = of_int m * (2 powi ?e * 2 ^ n)" by (simp add: mult_ac)
    also have "\<dots> = ?x" using p by simp
    finally show ?thesis .
  qed
  have b: "\<bar>?x\<bar> < 2 ^ 1024"
  proof -
    have "\<bar>?x\<bar> = \<bar>of_int m\<bar> / 2 ^ k" by simp
    also have "\<dots> \<le> \<bar>of_int m\<bar>" by (simp add: field_simps mult_le_cancel_left1)
    also have "\<dots> < 2 ^ 53"
      using assms(1) by (metis of_int_abs of_int_less_numeral_power_cancel_iff)
    also have "\<dots> < (2::real) ^ 1024" by simp
    finally show ?thesis .
  qed
  then have "\<not> 2 ^ 1024 \<le> ?x" "\<not> ?x \<le> - (2 ^ 1024)" by linarith+
  then show ?thesis
    unfolding round_double_def Let_def r by simp
qed


lemma is_double_dyadic: "\<bar>m\<bar> < 2 ^ 53 \<Longrightarrow> k \<le> 1074 \<Longrightarrow> is_double (of_int m / 2 ^ k)"
  by (simp add: is_double_def round_double_dyadic)

lemma is_double_int: "\<bar>m\<bar> < 2 ^ 53 \<Longrightarrow> is_double (of_int m)"
  using is_double_dyadic [of m 0] by simp

lemma is_double_nat: "n < 2 ^ 53 \<Longrightarrow> is_double (real n)"
  using is_double_int [of "int n"] by simp

lemma is_double_nat_half: "n < 2 ^ 53 \<Longrightarrow> is_double (real n / 2)"
  using is_double_dyadic [of "int n" 1] by simp

lemma is_double_consts:
  "is_double 0" "is_double 1" "is_double (- 1)" "is_double 2" "is_double 4"
  "is_double (1 / 2)" "is_double (3 / 2)"
  using is_double_int [of 0] is_double_int [of 1] is_double_int [of "- 1"] is_double_int [of 2]
    is_double_int [of 4] is_double_dyadic [of 1 1] is_double_dyadic [of 3 1]
  by simp_all

lemma round_double_exact: "is_double x \<Longrightarrow> round_double x = Fin x"
  by (simp add: is_double_def)






section \<open>Facts about trajectory generation\<close>

lemma length_recorded: "length (recorded f dt y ts) = length ts"
  by (induction ts arbitrary: y) simp_all

lemma recorded_first: "ts \<noteq> [] \<Longrightarrow> recorded f dt y ts ! 0 = y"
  by (cases ts) simp_all

lemma recorded_next:
  "Suc i < length ts \<Longrightarrow>
     recorded f dt y ts ! Suc i = f (recorded f dt y ts ! i) (ts ! i) dt"
proof (induction ts arbitrary: y i)
  case Nil
  then show ?case by simp
next
  case (Cons t ts)
  show ?case
  proof (cases i)
    case 0
    with Cons.prems have "ts \<noteq> []" by auto
    with 0 show ?thesis by (simp add: recorded_first)
  next
    case (Suc j)
    with Cons.prems have "Suc j < length ts" by simp
    from Cons.IH [OF this] Suc show ?thesis by simp
  qed
qed

lemma length_step_formula:
  "length y = 4 \<Longrightarrow> length (step_formula snap method y t dt) = 4"
  by (simp add: step_formula_def length_rk4_formula length_symplectic_formula)

lemma step_func_value:
  assumes "y < length h" "length (h ! y) = 4" "n \<le> y"
  shows "\<exists>h' y'. (if method = ''rk4'' then rk4_step snap else symplectic_step snap) h y t dt
            = Inr (h', y')
          \<and> y' < length h' \<and> n \<le> y' \<and> take n h' = take n h
          \<and> h' ! y' = step_formula snap method (h ! y) t dt"
proof (cases "method = ''rk4''")
  case True
  with assms show ?thesis
    by (simp add: rk4_step_value step_formula_def)
next
  case False
  with assms show ?thesis
    by (simp add: symplectic_step_value step_formula_def)
qed

lemma solve_loop_recorded:
  assumes "y < length h" "length (h ! y) = 4" "n \<le> y" "i + length ts \<le> length states"
  shows "\<exists>h'. solve_loop (if method = ''rk4'' then rk4_step snap else symplectic_step snap)
              dt ts i h y states
            = Inr (h', take i states @ recorded (step_formula snap method) dt (h ! y) ts
                       @ drop (i + length ts) states)
          \<and> take n h' = take n h"
  using assms
proof (induction ts arbitrary: i h y states)
  case Nil
  then show ?case by simp
next
  case (Cons t ts)
  let ?step = "if method = ''rk4'' then rk4_step snap else symplectic_step snap"
  from step_func_value [OF Cons.prems(1-3), of "method" snap t dt]
  obtain h1 y1 where s: "?step h y t dt = Inr (h1, y1)"
    and y1: "y1 < length h1" "n \<le> y1" and fr: "take n h1 = take n h"
    and v: "h1 ! y1 = step_formula snap method (h ! y) t dt"
    by blast
  have l1: "length (h1 ! y1) = 4"
    using v Cons.prems(2) by (simp add: length_step_formula)
  have i: "i < length states" "Suc i + length ts \<le> length (states[i := h ! y])"
    using Cons.prems(4) by simp_all
  from Cons.IH [OF y1(1) l1 y1(2) i(2)]
  obtain h' where r: "solve_loop ?step dt ts (Suc i) h1 y1 (states[i := h ! y])
        = Inr (h', take (Suc i) (states[i := h ! y])
                   @ recorded (step_formula snap method) dt (h1 ! y1) ts
                   @ drop (Suc i + length ts) (states[i := h ! y]))"
    and fr': "take n h' = take n h1"
    by blast
  have t: "take (Suc i) (states[i := h ! y]) = take i states @ [h ! y]"
    using i(1) by (simp add: take_Suc_conv_app_nth)
  have d: "drop (Suc i + length ts) (states[i := h ! y]) = drop (i + length (t # ts)) states"
    by simp
  have row: "row_of (h ! y) = Inr (h ! y)"
    using Cons.prems(2) by (simp add: row_of_def)
  show ?case
    using s r fr fr' by (simp add: row t d v)
qed

lemma solve_value:
  assumes "arange t_start t_end dt = Inr ts" "y0 < length h" "length (h ! y0) = 4"
  shows "\<exists>h'. solve snap h y0 (t_start, t_end) dt method
            = Inr (h', ts, recorded (step_formula snap method) (Fin dt) (h ! y0) ts)
          \<and> take (length h) h' = h"
proof -
  let ?h1 = "h @ [h ! y0]"
  let ?st = "replicate (length ts) (replicate 4 (0::fl))"
  have p: "length h < length ?h1" "length (?h1 ! length h) = 4" "length h \<le> length h"
    "0 + length ts \<le> length ?st"
    using assms by simp_all
  from solve_loop_recorded [OF p, of "method" snap "Fin dt"]
  obtain h' where r: "solve_loop (if method = ''rk4'' then rk4_step snap else symplectic_step snap)
        (Fin dt) ts 0 ?h1 (length h) ?st
      = Inr (h', take 0 ?st @ recorded (step_formula snap method) (Fin dt) (?h1 ! length h) ts
                 @ drop (0 + length ts) ?st)"
    and fr: "take (length h) h' = take (length h) ?h1"
    by blast
  show ?thesis
    using assms(1) r fr
    by (simp add: solve_def new_array_def Let_def)
qed

lemma solve_arange_error:
  "arange t_start t_end dt = Inl e \<Longrightarrow> solve snap h y0 (t_start, t_end) dt method = Inl e"
  by (simp add: solve_def)

lemma solve_zero_step: "solve snap h y0 (t_start, t_end) 0 method = Inl ZeroDivisionError"
  by (simp add: solve_def arange_def calc_length_def)

lemma arange_no_values:
  assumes "calc_length t_start t_end dt = Inr n" "n \<le> 0"
  shows "arange t_start t_end dt = Inr []"
  using assms by (simp add: arange_def)

lemma calc_length_negative:
  assumes "dt \<noteq> 0" "rd (round_double (t_end - t_start) / Fin dt) = Fin q"
    "- (2 ^ 63) < q" "q < 0"
  shows "calc_length t_start t_end dt = Inr \<lceil>q\<rceil>" and "\<lceil>q\<rceil> \<le> 0"
proof -
  have 1: "\<lceil>q\<rceil> \<le> 0" using assms(4) by (simp add: ceiling_le_zero)
  have "- (2 ^ 63) \<le> \<lceil>q\<rceil>"
  proof -
    have "real_of_int (- (2 ^ 63)) < q" using assms(3) by simp
    then have "- (2 ^ 63) < \<lceil>q\<rceil>" by (simp only: less_ceiling_iff)
    then show ?thesis by simp
  qed
  then have 2: "\<not> (\<lceil>q\<rceil> < - (2 ^ 63) \<or> 2 ^ 63 \<le> \<lceil>q\<rceil>)"
    using 1 by simp
  show "calc_length t_start t_end dt = Inr \<lceil>q\<rceil>"
    using assms(1,2,4) 2 by (simp add: calc_length_def Let_def)
  show "\<lceil>q\<rceil> \<le> 0" by (rule 1)
qed

lemma calc_length_same_ends:
  assumes "dt \<noteq> 0"
  shows "calc_length t t dt = Inr 0"
  using assms is_double_consts(1)
  by (simp add: calc_length_def Let_def round_double_exact)

lemma calc_length_exact:
  assumes "dt \<noteq> 0" "is_double (t_end - t_start)" "is_double ((t_end - t_start) / dt)"
    "- (2 ^ 63) < (t_end - t_start) / dt" "(t_end - t_start) / dt \<le> 2 ^ 53"
  shows "calc_length t_start t_end dt = Inr \<lceil>(t_end - t_start) / dt\<rceil>"
proof -
  let ?q = "(t_end - t_start) / dt"
  have n: "round_double (t_end - t_start) = Fin (t_end - t_start)"
    using assms(2) by (rule round_double_exact)
  have q: "rd (Fin (t_end - t_start) / Fin dt) = Fin ?q"
    using assms(1,3) by (simp add: round_double_exact)
  have lo: "- (2 ^ 63) \<le> \<lceil>?q\<rceil>"
  proof -
    have "real_of_int (- (2 ^ 63)) < ?q" using assms(4) by simp
    then have "- (2 ^ 63) < \<lceil>?q\<rceil>" by (simp only: less_ceiling_iff)
    then show ?thesis by simp
  qed
  have hi: "\<lceil>?q\<rceil> < 2 ^ 63"
  proof -
    have "?q \<le> real_of_int (2 ^ 53)" using assms(5) by simp
    then have "\<lceil>?q\<rceil> \<le> 2 ^ 53" by (simp only: ceiling_le_iff)
    then show ?thesis by simp
  qed
  have rq: "round_double ?q = Fin ?q"
    using assms(3) by (rule round_double_exact)
  have z: "\<not> (?q = 0 \<and> Fin (t_end - t_start) \<noteq> Fin 0)"
    using assms(1) by simp
  have b: "\<not> (\<lceil>?q\<rceil> < - (2 ^ 63) \<or> 2 ^ 63 \<le> \<lceil>?q\<rceil>)"
    using lo hi by simp
  have "calc_length t_start t_end dt =
      (case Fin ?q of
         Fin q \<Rightarrow>
           if \<lceil>q\<rceil> < - (2 ^ 63) \<or> 2 ^ 63 \<le> \<lceil>q\<rceil> then Inl ValueError
           else if q = 0 \<and> Fin (t_end - t_start) \<noteq> Fin 0
             then Inr (if 0 < Fin (t_end - t_start) / Fin dt then 1 else 0)
           else Inr \<lceil>q\<rceil>
       | _ \<Rightarrow> Inl ValueError)"
    unfolding calc_length_def Let_def n using assms(1) by (simp add: rq)
  also have "\<dots> = Inr \<lceil>?q\<rceil>"
    by (simp only: fl.case z b if_False)
  finally show ?thesis .
qed

lemma arange_exact:
  assumes "dt \<noteq> 0" "is_double (t_end - t_start)" "is_double ((t_end - t_start) / dt)"
    "- (2 ^ 63) < (t_end - t_start) / dt" "(t_end - t_start) / dt \<le> 2 ^ 53"
    "\<forall>i<nat \<lceil>(t_end - t_start) / dt\<rceil>.
        is_double (real i * dt) \<and> is_double (t_start + real i * dt)"
  shows "arange t_start t_end dt =
     Inr (map (\<lambda>i. Fin (t_start + real i * dt)) [0..<nat \<lceil>(t_end - t_start) / dt\<rceil>])"
proof -
  let ?N = "nat \<lceil>(t_end - t_start) / dt\<rceil>"
  let ?next = "round_double (t_start + dt)"
  let ?delta = "rd (?next - Fin t_start)"
  have c: "calc_length t_start t_end dt = Inr \<lceil>(t_end - t_start) / dt\<rceil>"
    using assms(1-5) by (rule calc_length_exact)
  have small: "i < 2 ^ 53" if "i < ?N" for i
  proof -
    have "(t_end - t_start) / dt \<le> real_of_int (2 ^ 53)" using assms(5) by simp
    then have "\<lceil>(t_end - t_start) / dt\<rceil> \<le> 2 ^ 53" by (simp only: ceiling_le_iff)
    with that have "int i < 2 ^ 53" by linarith
    then show ?thesis
      by (metis of_nat_less_numeral_power_cancel_iff)
  qed
  have v: "(if i = 0 then Fin t_start else if i = 1 then ?next
            else rd (Fin t_start + rd (round_double (real i) * ?delta)))
         = Fin (t_start + real i * dt)" if i: "i < ?N" for i
  proof -
    consider "i = 0" | "i = 1" | "2 \<le> i" by linarith
    then show ?thesis
    proof cases
      case 1
      then show ?thesis by simp
    next
      case 2
      with i assms(6) have "is_double (t_start + real 1 * dt)" by blast
      then have "?next = Fin (t_start + dt)" by (simp add: round_double_exact)
      with 2 show ?thesis by simp
    next
      case 3
      with i have one: "1 < ?N" by linarith
      with assms(6) have "is_double (real 1 * dt)" "is_double (t_start + real 1 * dt)"
        by blast+
      then have d1: "round_double dt = Fin dt" and n1: "?next = Fin (t_start + dt)"
        by (simp_all add: round_double_exact)
      have delta: "?delta = Fin dt"
        by (simp add: n1 minus_fl_def d1)
      have ri: "round_double (real i) = Fin (real i)"
        using small [OF i] by (simp add: is_double_nat round_double_exact)
      from i assms(6) have "is_double (real i * dt)" "is_double (t_start + real i * dt)"
        by blast+
      then have "rd (Fin t_start + rd (round_double (real i) * ?delta))
          = Fin (t_start + real i * dt)"
        by (simp add: delta ri round_double_exact)
      with 3 show ?thesis by simp
    qed
  qed
  have "map (\<lambda>i. if i = 0 then Fin t_start else if i = 1 then ?next
            else rd (Fin t_start + rd (round_double (real i) * ?delta))) [0..<?N]
      = map (\<lambda>i. Fin (t_start + real i * dt)) [0..<?N]"
    by (rule map_cong) (simp_all add: v)
  moreover have "\<not> 2 ^ 60 \<le> \<lceil>(t_end - t_start) / dt\<rceil>"
  proof -
    have "(t_end - t_start) / dt \<le> real_of_int (2 ^ 53)" using assms(5) by simp
    then have "\<lceil>(t_end - t_start) / dt\<rceil> \<le> 2 ^ 53" by (simp only: ceiling_le_iff)
    then show ?thesis by simp
  qed
  ultimately show ?thesis
    by (simp add: arange_def c Let_def)
qed

lemma replicate_2: "replicate 2 x = [x, x]"
  by (simp add: numeral_2_eq_2)

lemma upt_2: "[0..<2] = [0, Suc 0]"
  by (simp add: upt_conv_Cons)





lemma arange_0_2_1: "arange 0 2 1 = Inr [Fin 0, Fin 1]"
proof -
  have "arange 0 2 1
      = Inr (map (\<lambda>i. Fin (0 + real i * 1)) [0..<nat \<lceil>(2 - 0) / (1::real)\<rceil>])"
    by (rule arange_exact) (simp_all add: is_double_consts is_double_nat)
  then show ?thesis by (simp add: upt_2)
qed

lemma arange_0_1_half: "arange 0 1 (1 / 2) = Inr [Fin 0, Fin (1 / 2)]"
proof -
  have "arange 0 1 (1 / 2)
      = Inr (map (\<lambda>i. Fin (0 + real i * (1 / 2))) [0..<nat \<lceil>(1 - 0) / (1 / 2 :: real)\<rceil>])"
    by (rule arange_exact) (simp_all add: is_double_consts is_double_nat_half)
  then show ?thesis by (simp add: upt_2)
qed

lemma arange_0_1_minus: "arange 0 1 (- 1) = Inr []"
proof -
  have q: "rd (round_double (1 - 0) / Fin (- 1)) = Fin (- 1)"
    using is_double_consts by (simp add: round_double_exact)
  have "calc_length 0 1 (- 1) = Inr \<lceil>- 1 :: real\<rceil>" "\<lceil>- 1 :: real\<rceil> \<le> 0"
    using calc_length_negative [OF _ q] by simp_all
  then show ?thesis by (rule arange_no_values)
qed

lemma arange_1_0_1: "arange 1 0 1 = Inr []"
proof -
  have q: "rd (round_double (0 - 1) / Fin 1) = Fin (- 1)"
    using is_double_consts by (simp add: round_double_exact)
  have "calc_length 1 0 1 = Inr \<lceil>- 1 :: real\<rceil>" "\<lceil>- 1 :: real\<rceil> \<le> 0"
    using calc_length_negative [OF _ q] by simp_all
  then show ?thesis by (rule arange_no_values)
qed





section \<open>Trajectory generation: the time grid and the recorded states\<close>




section \<open>Trajectory generation: parameters are not validated\<close>

text \<open>
  C6 (amended). \<^verbatim>\<open>solve\<close> validates none of its parameters. With \<open>dt = 0\<close> it
  fails before any step, with the ZeroDivisionError of the construction of the
  time grid. With a nonzero \<open>dt\<close> whose float64 quotient \<open>(t_end - t_start) / dt\<close> is
  negative and above \<open>- 2 ^ 63\<close> (a negative step over a forward span, a positive
  step over a reversed span), or with \<open>t_end = t_start\<close>, it returns the empty
  trajectory without error, having only copied the initial state. With a
  method string other than \<open>rk4\<close>, whenever the time grid is built, every step
  of the run is the symplectic step: the recorded states are those of the
  symplectic formula.
\<close>

theorem solve_parameters_unchecked:
  assumes "y0 < length h" and "length (h ! y0) = 4"
  shows "solve snap h y0 (t_start, t_end) 0 method = Inl ZeroDivisionError
    \<and> (dt \<noteq> 0 \<and> rd (round_double (t_end - t_start) / Fin dt) = Fin q
          \<and> - (2 ^ 63) < q \<and> q < 0 \<longrightarrow>
          solve snap h y0 (t_start, t_end) dt method = Inr (h @ [h ! y0], [], []))
    \<and> (dt \<noteq> 0 \<longrightarrow> solve snap h y0 (t_start, t_start) dt method = Inr (h @ [h ! y0], [], []))
    \<and> (method \<noteq> ''rk4'' \<and> arange t_start t_end dt = Inr ts \<longrightarrow>
          (\<exists>h'. solve snap h y0 (t_start, t_end) dt method
             = Inr (h', ts, recorded (symplectic_formula snap) (Fin dt) (h ! y0) ts)))"
proof (intro conjI impI)
  show "solve snap h y0 (t_start, t_end) 0 method = Inl ZeroDivisionError"
    by (rule solve_zero_step)
next
  assume a: "dt \<noteq> 0 \<and> rd (round_double (t_end - t_start) / Fin dt) = Fin q
      \<and> - (2 ^ 63) < q \<and> q < 0"
  then have "calc_length t_start t_end dt = Inr \<lceil>q\<rceil>" "\<lceil>q\<rceil> \<le> 0"
    by (simp_all add: calc_length_negative)
  then have "arange t_start t_end dt = Inr []" by (rule arange_no_values)
  then show "solve snap h y0 (t_start, t_end) dt method = Inr (h @ [h ! y0], [], [])"
    by (simp add: solve_def new_array_def)
next
  assume "dt \<noteq> 0"
  then have "calc_length t_start t_start dt = Inr 0" by (rule calc_length_same_ends)
  then have "arange t_start t_start dt = Inr []" by (rule arange_no_values) simp
  then show "solve snap h y0 (t_start, t_start) dt method = Inr (h @ [h ! y0], [], [])"
    by (simp add: solve_def new_array_def)
next
  assume m: "method \<noteq> ''rk4'' \<and> arange t_start t_end dt = Inr ts"
  then have f: "step_formula snap method = symplectic_formula snap"
    by (intro ext) (simp add: step_formula_def)
  from m have "arange t_start t_end dt = Inr ts" by simp
  from solve_value [OF this assms, of snap "method"]
  show "\<exists>h'. solve snap h y0 (t_start, t_end) dt method
      = Inr (h', ts, recorded (symplectic_formula snap) (Fin dt) (h ! y0) ts)"
    by (auto simp: f)
qed

theorem solve_parameters_unchecked_witness:
  "solve linear_snap [[Fin 1, Fin 0, Fin 0, Fin 0]] 0 (0, 1) 0 ''euler'' = Inl ZeroDivisionError
   \<and> solve linear_snap [[Fin 1, Fin 0, Fin 0, Fin 0]] 0 (0, 1) (- 1) ''euler''
       = Inr ([[Fin 1, Fin 0, Fin 0, Fin 0], [Fin 1, Fin 0, Fin 0, Fin 0]], [], [])
   \<and> solve linear_snap [[Fin 1, Fin 0, Fin 0, Fin 0]] 0 (1, 1) 1 ''euler''
       = Inr ([[Fin 1, Fin 0, Fin 0, Fin 0], [Fin 1, Fin 0, Fin 0, Fin 0]], [], [])
   \<and> (\<exists>h'. solve linear_snap [[Fin 1, Fin 0, Fin 0, Fin 0]] 0 (0, 2) 1 ''euler''
         = Inr (h', [Fin 0, Fin 1],
                [[Fin 1, Fin 0, Fin 0, Fin 0],
                 symplectic_formula linear_snap [Fin 1, Fin 0, Fin 0, Fin 0] (Fin 0) (Fin 1)]))"
proof -
  have q: "rd (round_double (1 - 0) / Fin (- 1)) = Fin (- 1)"
    using is_double_consts by (simp add: round_double_exact)
  note 1 = solve_parameters_unchecked [of 0 "[[Fin 1, Fin 0, Fin 0, Fin 0]]" linear_snap 0 1
      "''euler''" "- 1" "- 1" "[]"]
  note 2 = solve_parameters_unchecked [of 0 "[[Fin 1, Fin 0, Fin 0, Fin 0]]" linear_snap 1 1
      "''euler''" 1 "- 1" "[]"]
  note 3 = solve_parameters_unchecked [of 0 "[[Fin 1, Fin 0, Fin 0, Fin 0]]" linear_snap 0 2
      "''euler''" 1 "- 1" "[Fin 0, Fin 1]"]
  from 1 q have a: "solve linear_snap [[Fin 1, Fin 0, Fin 0, Fin 0]] 0 (0, 1) 0 ''euler''
      = Inl ZeroDivisionError"
    and b: "solve linear_snap [[Fin 1, Fin 0, Fin 0, Fin 0]] 0 (0, 1) (- 1) ''euler''
       = Inr ([[Fin 1, Fin 0, Fin 0, Fin 0], [Fin 1, Fin 0, Fin 0, Fin 0]], [], [])"
    by simp_all
  from 2 have c: "solve linear_snap [[Fin 1, Fin 0, Fin 0, Fin 0]] 0 (1, 1) 1 ''euler''
       = Inr ([[Fin 1, Fin 0, Fin 0, Fin 0], [Fin 1, Fin 0, Fin 0, Fin 0]], [], [])"
    by simp
  from 3 have d: "\<exists>h'. solve linear_snap [[Fin 1, Fin 0, Fin 0, Fin 0]] 0 (0, 2) 1 ''euler''
         = Inr (h', [Fin 0, Fin 1],
                [[Fin 1, Fin 0, Fin 0, Fin 0],
                 symplectic_formula linear_snap [Fin 1, Fin 0, Fin 0, Fin 0] (Fin 0) (Fin 1)])"
    by (simp add: arange_0_2_1)
  from a b c d show ?thesis by blast
qed

text \<open>
  The claim as stated fails: a negative step, a reversed span and the unknown
  method \<open>euler\<close> each return a trajectory and no error; the run with \<open>euler\<close>
  takes symplectic steps.
\<close>

theorem solve_invalid_parameter_counterexample:
  "solve linear_snap [[Fin 0, Fin 0, Fin 0, Fin 0]] 0 (0, 1) (- 1) ''rk4''
     = Inr ([[Fin 0, Fin 0, Fin 0, Fin 0], [Fin 0, Fin 0, Fin 0, Fin 0]], [], [])
   \<and> solve linear_snap [[Fin 0, Fin 0, Fin 0, Fin 0]] 0 (1, 0) 1 ''rk4''
     = Inr ([[Fin 0, Fin 0, Fin 0, Fin 0], [Fin 0, Fin 0, Fin 0, Fin 0]], [], [])
   \<and> solve linear_snap [[Fin 1, Fin 0, Fin 0, Fin 0]] 0 (0, 2) 1 ''euler''
     = Inr ([[Fin 1, Fin 0, Fin 0, Fin 0],
             symplectic_formula linear_snap
               (symplectic_formula linear_snap [Fin 1, Fin 0, Fin 0, Fin 0] (Fin 0) (Fin 1))
               (Fin 1) (Fin 1)],
            [Fin 0, Fin 1],
            [[Fin 1, Fin 0, Fin 0, Fin 0],
             symplectic_formula linear_snap [Fin 1, Fin 0, Fin 0, Fin 0] (Fin 0) (Fin 1)])"
proof (intro conjI)
  show "solve linear_snap [[Fin 0, Fin 0, Fin 0, Fin 0]] 0 (0, 1) (- 1) ''rk4''
     = Inr ([[Fin 0, Fin 0, Fin 0, Fin 0], [Fin 0, Fin 0, Fin 0, Fin 0]], [], [])"
    by (simp add: solve_def arange_0_1_minus new_array_def)
  show "solve linear_snap [[Fin 0, Fin 0, Fin 0, Fin 0]] 0 (1, 0) 1 ''rk4''
     = Inr ([[Fin 0, Fin 0, Fin 0, Fin 0], [Fin 0, Fin 0, Fin 0, Fin 0]], [], [])"
    by (simp add: solve_def arange_1_0_1 new_array_def)
  show "solve linear_snap [[Fin 1, Fin 0, Fin 0, Fin 0]] 0 (0, 2) 1 ''euler''
     = Inr ([[Fin 1, Fin 0, Fin 0, Fin 0],
             symplectic_formula linear_snap
               (symplectic_formula linear_snap [Fin 1, Fin 0, Fin 0, Fin 0] (Fin 0) (Fin 1))
               (Fin 1) (Fin 1)],
            [Fin 0, Fin 1],
            [[Fin 1, Fin 0, Fin 0, Fin 0],
             symplectic_formula linear_snap [Fin 1, Fin 0, Fin 0, Fin 0] (Fin 0) (Fin 1)])"
    by (simp add: solve_def arange_0_2_1 replicate_2 new_array_def row_of_def
        symplectic_step_value length_symplectic_formula)
qed

section \<open>Trajectory generation: non-finite states\<close>

lemma rk4_formula_pole_zero:
  "rk4_formula pole_snap [Fin 0, Fin 0, Fin 0, Fin 0] (Fin t) (Fin (1 / 2))
     = [PInf, PInf, PInf, PInf]"
  by (simp add: rk4_formula_def vector_field_def pole_snap_def vadd_def vscale_def vdiv_def
      smul_def fl_consts Let_def)

lemma rk4_formula_pole_inf:
  "rk4_formula pole_snap [PInf, PInf, PInf, PInf] (Fin t) (Fin (1 / 2))
     = [PInf, PInf, PInf, PInf]"
  by (simp add: rk4_formula_def vector_field_def pole_snap_def vadd_def vscale_def vdiv_def
      smul_def fl_consts Let_def)

text \<open>
  C7 (amended). \<^verbatim>\<open>solve\<close> makes no check of the states it produces. Whenever
  the time grid is built, for a snap function that returns a value at every
  state and a 4-component initial state, finite or not, it returns normally
  and the recorded states are exactly the computed ones: the first is the
  initial state and each next one is the step from the one before, whatever
  their components are.
\<close>

theorem solve_records_every_state:
  assumes "y0 < length h" and "length (h ! y0) = 4"
    and "arange t_start t_end dt = Inr ts"
  shows "\<exists>h' states. solve snap h y0 (t_start, t_end) dt method = Inr (h', ts, states)
      \<and> states = recorded (step_formula snap method) (Fin dt) (h ! y0) ts
      \<and> length states = length ts
      \<and> (ts \<noteq> [] \<longrightarrow> states ! 0 = h ! y0)
      \<and> (\<forall>i. Suc i < length ts \<longrightarrow>
            states ! Suc i = step_formula snap method (states ! i) (ts ! i) (Fin dt))"
proof -
  let ?st = "recorded (step_formula snap method) (Fin dt) (h ! y0) ts"
  from solve_value [OF assms(3) assms(1,2)]
  obtain h' where r: "solve snap h y0 (t_start, t_end) dt method = Inr (h', ts, ?st)"
    by blast
  have 1: "length ?st = length ts" by (rule length_recorded)
  have 2: "ts \<noteq> [] \<longrightarrow> ?st ! 0 = h ! y0" by (simp add: recorded_first)
  have 3: "\<forall>i. Suc i < length ts \<longrightarrow>
      ?st ! Suc i = step_formula snap method (?st ! i) (ts ! i) (Fin dt)"
    by (simp add: recorded_next)
  from r 1 2 3 show ?thesis by blast
qed

theorem solve_records_every_state_witness:
  "\<exists>h'. solve pole_snap [[Fin 0, Fin 0, Fin 0, Fin 0]] 0 (0, 1) (1 / 2) ''rk4''
      = Inr (h', [Fin 0, Fin (1 / 2)], [[Fin 0, Fin 0, Fin 0, Fin 0], [PInf, PInf, PInf, PInf]])"
proof -
  have "\<exists>h' states. solve pole_snap [[Fin 0, Fin 0, Fin 0, Fin 0]] 0 (0, 1) (1 / 2) ''rk4''
        = Inr (h', [Fin 0, Fin (1 / 2)], states)
      \<and> states = recorded (step_formula pole_snap ''rk4'') (Fin (1 / 2))
          ([[Fin 0, Fin 0, Fin 0, Fin 0]] ! 0) [Fin 0, Fin (1 / 2)]
      \<and> length states = length [Fin 0, Fin (1 / 2)]
      \<and> ([Fin 0, Fin (1 / 2)] \<noteq> [] \<longrightarrow> states ! 0 = [[Fin 0, Fin 0, Fin 0, Fin 0]] ! 0)
      \<and> (\<forall>i. Suc i < length [Fin 0, Fin (1 / 2)] \<longrightarrow>
            states ! Suc i = step_formula pole_snap ''rk4'' (states ! i)
              ([Fin 0, Fin (1 / 2)] ! i) (Fin (1 / 2)))"
    by (rule solve_records_every_state) (simp_all add: arange_0_1_half)
  then show ?thesis
    by (auto simp: step_formula_def rk4_formula_pole_zero)
qed

text \<open>
  The claim as stated fails: with the snap function \<open>1 / x\<close> and the zero state
  the first Runge-Kutta step produces a state of four infinities, and the run
  goes on and returns it as the second entry of the trajectory.
\<close>

theorem solve_nonfinite_counterexample:
  "solve pole_snap [[Fin 0, Fin 0, Fin 0, Fin 0]] 0 (0, 1) (1 / 2) ''rk4'' =
     Inr ([[Fin 0, Fin 0, Fin 0, Fin 0], [Fin 0, Fin 0, Fin 0, Fin 0],
           [PInf, PInf, PInf, PInf], [PInf, PInf, PInf, PInf]],
          [Fin 0, Fin (1 / 2)],
          [[Fin 0, Fin 0, Fin 0, Fin 0], [PInf, PInf, PInf, PInf]])
   \<and> \<not> finite_fl PInf"
  by (simp add: solve_def arange_0_1_half replicate_2 new_array_def row_of_def
      rk4_step_value rk4_formula_pole_zero rk4_formula_pole_inf)

section \<open>Trajectory generation: recorded states and the caller's array\<close>

text \<open>
  C10. For every run of \<^verbatim>\<open>solve\<close> on a 4-component initial state, with any
  method string: when the time grid cannot be built the run ends with that
  error and records nothing; otherwise it returns, the row \<open>i\<close> of the returned
  states is the state as it was before step \<open>i\<close> (the initial state, then the
  step from the row before), whatever the later steps of the run did to the
  working array, and every array the caller had, the initial state among them,
  is as it was.
\<close>

theorem solve_recorded_states_immutable:
  assumes "y0 < length h" and "length (h ! y0) = 4"
  shows "case arange t_start t_end dt of
      Inl e \<Rightarrow> solve snap h y0 (t_start, t_end) dt method = Inl e
    | Inr ts \<Rightarrow>
        (\<exists>h' states. solve snap h y0 (t_start, t_end) dt method = Inr (h', ts, states)
          \<and> take (length h) h' = h \<and> h' ! y0 = h ! y0
          \<and> length states = length ts
          \<and> (ts \<noteq> [] \<longrightarrow> states ! 0 = h ! y0)
          \<and> (\<forall>i. Suc i < length ts \<longrightarrow>
                states ! Suc i = step_formula snap method (states ! i) (ts ! i) (Fin dt)))"
proof (cases "arange t_start t_end dt")
  case (Inl e)
  then show ?thesis by (simp add: solve_arange_error)
next
  case (Inr ts)
  let ?st = "recorded (step_formula snap method) (Fin dt) (h ! y0) ts"
  from solve_value [OF Inr assms]
  obtain h' where r: "solve snap h y0 (t_start, t_end) dt method = Inr (h', ts, ?st)"
    and fr: "take (length h) h' = h"
    by blast
  have "h' ! y0 = take (length h) h' ! y0"
    using assms(1) by simp
  then have 1: "h' ! y0 = h ! y0"
    using fr by simp
  have 2: "length ?st = length ts" by (rule length_recorded)
  have 3: "ts \<noteq> [] \<longrightarrow> ?st ! 0 = h ! y0" by (simp add: recorded_first)
  have 4: "\<forall>i. Suc i < length ts \<longrightarrow>
      ?st ! Suc i = step_formula snap method (?st ! i) (ts ! i) (Fin dt)"
    by (simp add: recorded_next)
  from r fr 1 2 3 4
  have "\<exists>h' states. solve snap h y0 (t_start, t_end) dt method = Inr (h', ts, states)
          \<and> take (length h) h' = h \<and> h' ! y0 = h ! y0
          \<and> length states = length ts
          \<and> (ts \<noteq> [] \<longrightarrow> states ! 0 = h ! y0)
          \<and> (\<forall>i. Suc i < length ts \<longrightarrow>
                states ! Suc i = step_formula snap method (states ! i) (ts ! i) (Fin dt))"
    by blast
  with Inr show ?thesis by simp
qed

theorem solve_recorded_states_immutable_witness:
  "\<exists>h' states.
      solve linear_snap [[Fin 1, Fin 0, Fin 0, Fin 0]] 0 (0, 2) 1 ''symplectic''
        = Inr (h', [Fin 0, Fin 1], states)
      \<and> take 1 h' = [[Fin 1, Fin 0, Fin 0, Fin 0]]
      \<and> h' ! 0 = [Fin 1, Fin 0, Fin 0, Fin 0]
      \<and> length states = 2
      \<and> states ! 0 = [Fin 1, Fin 0, Fin 0, Fin 0]
      \<and> states ! 1 = symplectic_formula linear_snap [Fin 1, Fin 0, Fin 0, Fin 0] (Fin 0) (Fin 1)"
proof -
  have "case arange 0 2 1 of
      Inl e \<Rightarrow> solve linear_snap [[Fin 1, Fin 0, Fin 0, Fin 0]] 0 (0, 2) 1 ''symplectic'' = Inl e
    | Inr ts \<Rightarrow>
        (\<exists>h' states.
            solve linear_snap [[Fin 1, Fin 0, Fin 0, Fin 0]] 0 (0, 2) 1 ''symplectic''
              = Inr (h', ts, states)
          \<and> take (length [[Fin 1, Fin 0, Fin 0, Fin (0::real)]]) h' = [[Fin 1, Fin 0, Fin 0, Fin 0]]
          \<and> h' ! 0 = [[Fin 1, Fin 0, Fin 0, Fin 0]] ! 0
          \<and> length states = length ts
          \<and> (ts \<noteq> [] \<longrightarrow> states ! 0 = [[Fin 1, Fin 0, Fin 0, Fin 0]] ! 0)
          \<and> (\<forall>i. Suc i < length ts \<longrightarrow>
                states ! Suc i = step_formula linear_snap ''symplectic'' (states ! i) (ts ! i)
                  (Fin 1)))"
    by (rule solve_recorded_states_immutable) simp_all
  then
  obtain h' states where
    "solve linear_snap [[Fin 1, Fin 0, Fin 0, Fin 0]] 0 (0, 2) 1 ''symplectic''
        = Inr (h', [Fin 0, Fin 1], states)"
    "take 1 h' = [[Fin 1, Fin 0, Fin 0, Fin 0]]" "h' ! 0 = [Fin 1, Fin 0, Fin 0, Fin 0]"
    "length states = 2" "states ! 0 = [Fin 1, Fin 0, Fin 0, Fin 0]"
    "\<forall>i. Suc i < 2 \<longrightarrow>
        states ! Suc i = step_formula linear_snap ''symplectic'' (states ! i)
          ([Fin 0, Fin 1] ! i) (Fin 1)"
    by (auto simp: arange_0_2_1)
  moreover from this(6) have
    "states ! Suc 0 = step_formula linear_snap ''symplectic'' (states ! 0) ([Fin 0, Fin 1] ! 0)
        (Fin 1)"
    by simp
  ultimately show ?thesis
    by (auto simp: step_formula_def)
qed

section \<open>Single steps and their input array\<close>

text \<open>The Runge-Kutta step leaves every array as it was and returns a new reference.\<close>

lemma rk4_step_pure:
  assumes "y < length h" and "length (h ! y) = 4"
  shows "\<exists>h' r. rk4_step snap h y t dt = Inr (h', r) \<and> r = length h \<and> take (length h) h' = h
    \<and> h' ! y = h ! y"
  using assms by (simp add: rk4_step_value nth_append)

text \<open>
  C9. The claim is that both steps leave the input state unchanged and return a
  new state. The Runge-Kutta step does (\<open>rk4_step_pure\<close>); the symplectic step
  does not: on \<open>y = [1, 0, 0, 0]\<close> with the snap function \<open>-x\<close>, \<open>t = 0\<close> and \<open>dt = 1\<close>
  it returns the reference it was given, and the array there has changed (its
  fourth component was \<open>0\<close> and is \<open>-1\<close>).
\<close>

theorem symplectic_step_mutates_input:
  "symplectic_step linear_snap [[Fin 1, Fin 0, Fin 0, Fin 0]] 0 (Fin 0) (Fin 1)
     = Inr ([symplectic_formula linear_snap [Fin 1, Fin 0, Fin 0, Fin 0] (Fin 0) (Fin 1)], 0)
   \<and> symplectic_formula linear_snap [Fin 1, Fin 0, Fin 0, Fin 0] (Fin 0) (Fin 1) ! 3 = Fin (- 1)
   \<and> [Fin 1, Fin 0, Fin 0, Fin 0] ! 3 = Fin 0"
proof -
  have "symplectic_formula linear_snap [Fin 1, Fin 0, Fin 0, Fin 0] (Fin 0) (Fin 1) ! 3
      = Fin (- 1)"
    by (simp add: symplectic_formula_def theta_def linear_snap_def fl_consts Let_def
        algebra_simps)
  then show ?thesis
    by (simp add: symplectic_step_value)
qed

section \<open>Facts about section extraction\<close>

lemma item_component:
  assumes "length a = 4" "- 4 \<le> k" "k < 4"
  shows "item a k = Inr (a ! component k)"
  using assms by (auto simp: item_def component_def algebra_simps)


lemma pairs_drop:
  assumes "i + 1 < length xs"
  shows "drop i (zip xs (tl xs)) = (xs ! i, xs ! (i + 1)) # drop (Suc i) (zip xs (tl xs))"
proof -
  have l: "i < length (zip xs (tl xs))" using assms by simp
  have "zip xs (tl xs) ! i = (xs ! i, xs ! (i + 1))"
    using assms by (simp add: nth_tl)
  with Cons_nth_drop_Suc [OF l] show ?thesis by simp
qed

lemma pairs_drop_end:
  assumes "\<not> i + 1 < length xs"
  shows "drop i (zip xs (tl xs)) = []"
  using assms by simp

lemma poincare_loop_points:
  assumes "\<forall>s\<in>set states. length s = 4" "- 4 \<le> k" "k < 4"
  shows "poincare_loop states k thr d i ps =
     Inr (ps @ map (\<lambda>(s1, s2). section_point (component k) thr s1 s2)
                 (filter (\<lambda>(s1, s2). crosses (component k) thr d s1 s2)
                    (drop i (zip states (tl states)))))"
proof (induction "length states - i" arbitrary: i ps)
  case 0
  then have "\<not> i + 1 < length states" by simp
  then show ?case
    by (subst poincare_loop.simps) (simp add: pairs_drop_end)
next
  case (Suc n)
  show ?case
  proof (cases "i + 1 < length states")
    case False
    then show ?thesis
      by (subst poincare_loop.simps) (simp add: pairs_drop_end)
  next
    case True
    then have t: "Suc i < length states" by simp
    then have "states ! i \<in> set states" "states ! Suc i \<in> set states"
      by simp_all
    with assms(1) have l: "length (states ! i) = 4" "length (states ! Suc i) = 4"
      by blast+
    have it: "item (states ! i) k = Inr (states ! i ! component k)"
      "item (states ! Suc i) k = Inr (states ! Suc i ! component k)"
      using l assms(2,3) by (simp_all add: item_component)
    have step: "poincare_loop states k thr d i ps =
        (if crosses (component k) thr d (states ! i) (states ! Suc i)
         then poincare_loop states k thr d (Suc i)
                (ps @ [section_point (component k) thr (states ! i) (states ! Suc i)])
         else poincare_loop states k thr d (Suc i) ps)"
      by (subst poincare_loop.simps) (simp add: t it crosses_def section_point_def)
    have n: "n = length states - Suc i"
      using Suc.hyps(2) by simp
    note ih = Suc.hyps(1) [OF n]
    have d: "drop i (zip states (tl states))
        = (states ! i, states ! Suc i) # drop (Suc i) (zip states (tl states))"
      using pairs_drop [OF True] by simp
    show ?thesis
      by (simp add: step ih d)
  qed
qed



lemma increasing_code: "(0 < Fin 1 * x) = (0 < x)"
  by (cases x) (simp_all add: zero_fl_def)

lemma decreasing_code: "(0 < Fin (- 1) * x) = (x < 0)"
  by (cases x) (simp_all add: zero_fl_def)

lemma crosses_direction:
  "crosses idx thr (direction_code dir) s1 s2 =
     ((s1 ! idx - thr) * (s2 ! idx - thr) < 0 \<and> in_direction dir idx s1 s2)"
  by (cases dir) (simp_all add: crosses_def increasing_code decreasing_code)

lemma component_nat: "component (int idx) = idx"
  by (simp add: component_def)

section \<open>Section extraction: the crossings\<close>

text \<open>
  C5. For every trajectory of 4-component states, coordinate index \<open>idx\<close> in
  \<open>{0, 1, 2, 3}\<close>, threshold and crossing direction, section extraction returns,
  in the order of the trajectory, one point for each consecutive pair \<open>(s1, s2)\<close>
  with \<open>(s1[idx] - thr) * (s2[idx] - thr) < 0\<close> (strictly) whose difference
  \<open>s2[idx] - s1[idx]\<close> has the sign of the direction, the point being
  \<open>s1 + t (s2 - s1)\<close> with \<open>t = (thr - s1[idx]) / (s2[idx] - s1[idx])\<close> on all four
  components; there are at most \<open>N - 1\<close> points; and for \<open>s1 = (0, 0, -1, 0)\<close>,
  \<open>s2 = (0, 0, 1, 0)\<close>, index 2, threshold 0, increasing, the result is the one
  point \<open>(0, 0, 0, 0)\<close>.
\<close>

theorem poincare_section_crossings:
  assumes "\<forall>s\<in>set states. length s = 4" and "idx < 4"
  shows "poincare_section states (int idx) thr (direction_code dir) =
      Inr (map (\<lambda>(s1, s2).
                  vadd s1 (smul ((thr - s1 ! idx) / (s2 ! idx - s1 ! idx)) (vsub s2 s1)))
             (filter (\<lambda>(s1, s2).
                  (s1 ! idx - thr) * (s2 ! idx - thr) < 0 \<and> in_direction dir idx s1 s2)
                (zip states (tl states))))
    \<and> length (filter (\<lambda>(s1, s2).
                  (s1 ! idx - thr) * (s2 ! idx - thr) < 0 \<and> in_direction dir idx s1 s2)
                (zip states (tl states))) \<le> length states - 1
    \<and> poincare_section [[Fin 0, Fin 0, Fin (- 1), Fin 0], [Fin 0, Fin 0, Fin 1, Fin 0]] 2
         (Fin 0) (direction_code Increasing) = Inr [[Fin 0, Fin 0, Fin 0, Fin 0]]"
proof (intro conjI)
  have r: "- 4 \<le> int idx" "int idx < 4" using assms(2) by simp_all
  have "(\<lambda>(s1, s2). crosses idx thr (direction_code dir) s1 s2)
      = (\<lambda>(s1, s2). (s1 ! idx - thr) * (s2 ! idx - thr) < 0 \<and> in_direction dir idx s1 s2)"
    by (simp add: crosses_direction)
  moreover have "(\<lambda>(s1, s2). section_point idx thr s1 s2)
      = (\<lambda>(s1, s2). vadd s1 (smul ((thr - s1 ! idx) / (s2 ! idx - s1 ! idx)) (vsub s2 s1)))"
    by (simp add: section_point_def)
  ultimately show "poincare_section states (int idx) thr (direction_code dir) =
      Inr (map (\<lambda>(s1, s2).
                  vadd s1 (smul ((thr - s1 ! idx) / (s2 ! idx - s1 ! idx)) (vsub s2 s1)))
             (filter (\<lambda>(s1, s2).
                  (s1 ! idx - thr) * (s2 ! idx - thr) < 0 \<and> in_direction dir idx s1 s2)
                (zip states (tl states))))"
    using poincare_loop_points [OF assms(1) r, of thr "direction_code dir" 0 "[]"]
    by (simp add: poincare_section_def component_nat)
next
  have "length (filter (\<lambda>(s1, s2).
                  (s1 ! idx - thr) * (s2 ! idx - thr) < 0 \<and> in_direction dir idx s1 s2)
                (zip states (tl states))) \<le> length (zip states (tl states))"
    by (rule length_filter_le)
  then show "length (filter (\<lambda>(s1, s2).
                  (s1 ! idx - thr) * (s2 ! idx - thr) < 0 \<and> in_direction dir idx s1 s2)
                (zip states (tl states))) \<le> length states - 1"
    by simp
next
  have a: "\<forall>s\<in>set [[Fin 0, Fin 0, Fin (- 1), Fin 0], [Fin 0, Fin 0, Fin 1, Fin 0]]. length s = 4"
    by simp
  have c: "component 2 = 2" by (simp add: component_def)
  show "poincare_section [[Fin 0, Fin 0, Fin (- 1), Fin 0], [Fin 0, Fin 0, Fin 1, Fin 0]] 2
         (Fin 0) (direction_code Increasing) = Inr [[Fin 0, Fin 0, Fin 0, Fin 0]]"
    using poincare_loop_points [OF a, of 2 "Fin 0" 1 0 "[]"]
    by (simp add: poincare_section_def c crosses_def section_point_def vadd_def vsub_def
        smul_def fl_consts)
qed


theorem poincare_section_crossings_witness:
  "poincare_section [[Fin 0, Fin 0, Fin 1, Fin 0], [Fin 0, Fin 0, Fin (- 3), Fin 4]] (int 2)
      (Fin 0) (direction_code Decreasing) =
      Inr (map (\<lambda>(s1, s2).
                  vadd s1 (smul ((Fin 0 - s1 ! 2) / (s2 ! 2 - s1 ! 2)) (vsub s2 s1)))
             (filter (\<lambda>(s1, s2).
                  (s1 ! 2 - Fin 0) * (s2 ! 2 - Fin 0) < 0 \<and> in_direction Decreasing 2 s1 s2)
                (zip [[Fin 0, Fin 0, Fin 1, Fin 0], [Fin 0, Fin 0, Fin (- 3), Fin 4]]
                   (tl [[Fin 0, Fin 0, Fin 1, Fin 0], [Fin 0, Fin 0, Fin (- 3), Fin 4]]))))
    \<and> length (filter (\<lambda>(s1, s2).
                  (s1 ! 2 - Fin 0) * (s2 ! 2 - Fin 0) < 0 \<and> in_direction Decreasing 2 s1 s2)
                (zip [[Fin 0, Fin 0, Fin 1, Fin 0], [Fin 0, Fin 0, Fin (- 3), Fin 4]]
                   (tl [[Fin 0, Fin 0, Fin 1, Fin 0], [Fin 0, Fin 0, Fin (- 3), Fin 4]])))
        \<le> length [[Fin 0, Fin 0, Fin 1, Fin 0], [Fin 0, Fin 0, Fin (- 3), Fin 4]] - 1
    \<and> poincare_section [[Fin 0, Fin 0, Fin (- 1), Fin 0], [Fin 0, Fin 0, Fin 1, Fin 0]] 2
         (Fin 0) (direction_code Increasing) = Inr [[Fin 0, Fin 0, Fin 0, Fin 0]]"
  by (rule poincare_section_crossings) simp_all

section \<open>Section extraction: the coordinate index is not validated\<close>




end
